theory Spec2Isabelle
  imports Main "HOL-Library.AList" "HOL-Library.Word"
begin

section \<open>The s2s server of jackal: listener, registries, get-or-dial\<close>

text \<open>
  The embedding follows \<^verbatim>\<open>package s2s\<close> of \<^verbatim>\<open>src/router/config.go\<close> (the \<^verbatim>\<open>server\<close>
  type and its methods). The server is one record; every method takes the server and
  returns the updated server together with what the Go method returns. What the methods
  do to the outside world (the listener, the dialer, the streams, the log) is appended to
  a trace of calls, so that "no dial happened" or "the socket was closed once" are
  statements about that trace. What the outside world answers (the result of
  \<^verbatim>\<open>ln.Close()\<close>, of \<^verbatim>\<open>dialer.dial\<close>, of \<^verbatim>\<open>ln.Accept()\<close>) is a parameter of the
  method that asks.

  A method is modelled as one call running to its end, each \<^verbatim>\<open>sync.Map\<close> and atomic
  operation being one step of it. Two goroutines are interleaved in one place: a
  \<^verbatim>\<open>stop\<close> that arrives while the accept loop waits in \<^verbatim>\<open>Accept\<close>. The method
  \<^verbatim>\<open>start\<close> only builds the address and hands it to \<^verbatim>\<open>listenConn\<close>; it is not
  modelled.
\<close>

subsection \<open>Values\<close>

type_synonym addr = nat

text \<open>A Go \<^verbatim>\<open>error\<close> value that is not nil, named by its message.\<close>

type_synonym error = string

text \<open>
  A value held by a \<^verbatim>\<open>sync.Map\<close> is an \<^verbatim>\<open>interface{}\<close>: a pointer together with its
  dynamic type. Two pointer types are ever stored: \<^verbatim>\<open>*inStream\<close> and \<^verbatim>\<open>*outStream\<close>.
\<close>

datatype iface = InStreamPtr addr | OutStreamPtr addr

text \<open>
  How a call ends: it returns, it panics (a failed type assertion, a nil dereference), or
  it is still waiting for the outside world when the script of answers is used up.
\<close>

datatype 'a outcome = Returned 'a | Panicked | Blocked

text \<open>The two method values of the server that are handed to streams as callbacks.\<close>

datatype inCallback = UnregisterInStream

datatype outCallback = UnregisterOutStream

text \<open>
  \<^verbatim>\<open>streamConfig\<close> as \<^verbatim>\<open>startInStream\<close> fills it. The key generator, the timeouts, the
  stanza size and the dialer reference are passed through to the stream and read by no
  method of the server; they are left out.
\<close>

record streamConfig =
  transport :: string
  onInDisconnect :: "inCallback option"

text \<open>
  Modelled from the spec: the type of what \<^verbatim>\<open>dialer.dial\<close> returns and
  \<^verbatim>\<open>outStream.start\<close> receives is not in the source. The server writes its field
  \<^verbatim>\<open>onOutDisconnect\<close>; the two domains are what the spec makes the stream's identifier
  of (see \<open>outID\<close>).
\<close>

record outConfig =
  outLocalDomain :: string
  outRemoteDomain :: string
  onOutDisconnect :: "outCallback option"

text \<open>
  Modelled from the spec: the stream types are not in the source. An inbound stream has
  its identifier, the configuration it was created with, and whether it has been
  disconnected; an outbound stream has the configuration \<^verbatim>\<open>start\<close> gave it, if any.
\<close>

record inStream =
  inID :: string
  inCfg :: streamConfig
  inDisconnected :: bool

record outStream =
  outCfg :: "outConfig option"

datatype logLine =
    LogError error
  | LogRegisteredOut string
  | LogUnregisteredOut string
  | LogRegisteredIn string
  | LogUnregisteredIn string
  | LogClosedOut string nat
  | LogClosedIn string nat

datatype event =
    EvListen string
  | EvAccept
  | EvClose
  | EvDial string string
  | EvStart addr outConfig
  | EvDisconnect addr error
  | EvLog logLine

text \<open>
  The \<^verbatim>\<open>server\<close> struct: \<open>cfgID\<close> is \<^verbatim>\<open>s.cfg.ID\<close>, \<open>ln\<close> the listener (named by
  its address, \<open>None\<close> for nil), \<open>listening\<close> the \<^verbatim>\<open>uint32\<close> flag, \<open>inConns\<close> and
  \<open>outConns\<close> the two \<^verbatim>\<open>sync.Map\<close>s. The remaining fields are the world around it:
  the stream objects behind the pointers, the next unused address, and the trace.
\<close>

record server =
  cfgID :: string
  ln :: "string option"
  listening :: "32 word"
  inConns :: "(string \<times> iface) list"
  outConns :: "(string \<times> iface) list"
  inStreams :: "addr \<Rightarrow> inStream"
  outStreams :: "addr \<Rightarrow> outStream"
  nextAddr :: addr
  trace :: "event list"

text \<open>
  Modelled from the spec: \<^verbatim>\<open>streamerror.ErrSystemShutdown\<close> is not in the source; it is
  the one reason \<^verbatim>\<open>stop\<close> disconnects with, the spec's "system shutdown".
\<close>

definition ErrSystemShutdown :: error where
  "ErrSystemShutdown = ''system-shutdown''"

subsection \<open>sync.Map\<close>

text \<open>
  A \<^verbatim>\<open>sync.Map\<close> with string keys is an association list read through \<open>map_of\<close>.
  Each operation is one atomic step of the Go map. The order of the list stands for the
  order in which \<^verbatim>\<open>Range\<close> visits the keys, which Go leaves open.
\<close>

definition LoadOrStore ::
  "(string \<times> iface) list \<Rightarrow> string \<Rightarrow> iface \<Rightarrow> (string \<times> iface) list \<times> iface \<times> bool" where
  "LoadOrStore m key v =
     (case map_of m key of
        Some actual \<Rightarrow> (m, actual, True)
      | None \<Rightarrow> (AList.update key v m, v, False))"

definition Store :: "(string \<times> iface) list \<Rightarrow> string \<Rightarrow> iface \<Rightarrow> (string \<times> iface) list" where
  "Store m key v = AList.update key v m"

definition Delete :: "(string \<times> iface) list \<Rightarrow> string \<Rightarrow> (string \<times> iface) list" where
  "Delete m key = AList.delete key m"

subsection \<open>Streams\<close>

text \<open>
  Modelled from the spec: \<^verbatim>\<open>newOutStream\<close> is not in the source. The spec's get-or-dial
  algorithm calls its result a new, empty handle: a newly allocated stream without
  configuration.
\<close>

definition newOutStream :: "server \<Rightarrow> addr \<times> server" where
  "newOutStream s =
     (nextAddr s,
      s\<lparr>outStreams := (outStreams s)(nextAddr s := \<lparr>outCfg = None\<rparr>),
        nextAddr := Suc (nextAddr s)\<rparr>)"

text \<open>
  Modelled from the spec: \<^verbatim>\<open>outStream.start\<close> is not in the source. The spec's
  get-or-dial algorithm says that the configuration the dialer returned is attached to the
  handle and the stream then runs on its own execution unit; the model keeps the
  configuration in the stream and records the call.
\<close>

definition outStream_start :: "addr \<Rightarrow> outConfig \<Rightarrow> server \<Rightarrow> server" where
  "outStream_start stm cfg s =
     s\<lparr>outStreams := (outStreams s)(stm := \<lparr>outCfg = Some cfg\<rparr>),
       trace := trace s @ [EvStart stm cfg]\<rparr>"

text \<open>
  Modelled from the spec: \<^verbatim>\<open>outStream.ID()\<close> is not in the source. The spec's data model
  says that the identifier of an outbound link is the domain-pair key; the stream learns
  its two domains from the configuration \<^verbatim>\<open>start\<close> gives it, so a stream that was never
  started has none.
\<close>

definition outID :: "outStream \<Rightarrow> string option" where
  "outID stm = map_option (\<lambda>c. outLocalDomain c @ '':'' @ outRemoteDomain c) (outCfg stm)"

text \<open>
  Modelled from the spec: \<^verbatim>\<open>newInStream\<close> is not in the source. The spec's data model
  says that the identifier of an inbound link is derived from the connection; the model
  takes the name of the transport.
\<close>

definition newInStream :: "streamConfig \<Rightarrow> server \<Rightarrow> addr \<times> server" where
  "newInStream cfg s =
     (nextAddr s,
      s\<lparr>inStreams := (inStreams s)(nextAddr s :=
           \<lparr>inID = transport cfg, inCfg = cfg, inDisconnected = False\<rparr>),
        nextAddr := Suc (nextAddr s)\<rparr>)"

subsection \<open>The registries\<close>

definition registerInStream :: "addr \<Rightarrow> server \<Rightarrow> server" where
  "registerInStream stm s =
     s\<lparr>inConns := Store (inConns s) (inID (inStreams s stm)) (InStreamPtr stm),
       trace := trace s @ [EvLog (LogRegisteredIn (inID (inStreams s stm)))]\<rparr>"

definition unregisterInStream :: "addr \<Rightarrow> server \<Rightarrow> server" where
  "unregisterInStream stm s =
     s\<lparr>inConns := Delete (inConns s) (inID (inStreams s stm)),
       trace := trace s @ [EvLog (LogUnregisteredIn (inID (inStreams s stm)))]\<rparr>"

definition startInStream :: "string \<Rightarrow> server \<Rightarrow> server" where
  "startInStream tr s =
     (let (stm, s1) = newInStream \<lparr>transport = tr, onInDisconnect = Some UnregisterInStream\<rparr> s
      in registerInStream stm s1)"

text \<open>
  \<^verbatim>\<open>unregisterOutStream\<close> reads \<^verbatim>\<open>stm.ID()\<close>; on a stream without identifier the model
  panics, as a method reading through a nil configuration would.
\<close>

definition unregisterOutStream :: "addr \<Rightarrow> server \<Rightarrow> server \<times> unit outcome" where
  "unregisterOutStream stm s =
     (case outID (outStreams s stm) of
        None \<Rightarrow> (s, Panicked)
      | Some domainPair \<Rightarrow>
          (s\<lparr>outConns := Delete (outConns s) domainPair,
             trace := trace s @ [EvLog (LogUnregisteredOut domainPair)]\<rparr>,
           Returned ()))"

text \<open>
  \<^verbatim>\<open>getOrDial\<close>. The first argument is the dialer: what \<^verbatim>\<open>s.dialer.dial\<close> answers when
  it is asked (an error, or a configuration). The result is the Go pair: the handle or
  nil, the error or nil.
\<close>

definition getOrDial ::
  "(string \<Rightarrow> string \<Rightarrow> error + outConfig) \<Rightarrow> string \<Rightarrow> string \<Rightarrow> server
     \<Rightarrow> server \<times> (iface option \<times> error option) outcome" where
  "getOrDial dial localDomain remoteDomain s =
     (let domainPair = localDomain @ '':'' @ remoteDomain;
          (new, s1) = newOutStream s;
          (m, stm, loaded) = LoadOrStore (outConns s1) domainPair (OutStreamPtr new);
          s2 = s1\<lparr>outConns := m\<rparr>
      in if \<not> loaded then
           (case dial localDomain remoteDomain of
              Inl err \<Rightarrow>
                (s2\<lparr>outConns := Delete (outConns s2) domainPair,
                    trace := trace s2 @ [EvDial localDomain remoteDomain, EvLog (LogError err)]\<rparr>,
                 Returned (None, Some err))
            | Inr cfg \<Rightarrow>
                (case stm of
                   OutStreamPtr a \<Rightarrow>
                     (let s3 = s2\<lparr>trace := trace s2 @ [EvDial localDomain remoteDomain]\<rparr>;
                          s4 = outStream_start a (cfg\<lparr>onOutDisconnect := Some UnregisterOutStream\<rparr>) s3
                      in (s4\<lparr>trace := trace s4 @ [EvLog (LogRegisteredOut domainPair)]\<rparr>,
                          Returned (Some stm, None)))
                 | InStreamPtr a \<Rightarrow>
                     (s2\<lparr>trace := trace s2 @ [EvDial localDomain remoteDomain]\<rparr>, Panicked)))
         else
           (case stm of
              OutStreamPtr a \<Rightarrow> (s2, Returned (Some stm, None))
            | InStreamPtr a \<Rightarrow> (s2, Panicked)))"

subsection \<open>Shutdown\<close>

text \<open>
  Modelled from the spec: \<^verbatim>\<open>inStream.Disconnect\<close> is not in the source. The spec's
  interface section says that it terminates the stream and, exactly once upon completion,
  invokes the unregister callback registered before. The callback an inbound stream can
  hold is \<^verbatim>\<open>s.unregisterInStream\<close>.
\<close>

definition Disconnect :: "addr \<Rightarrow> error \<Rightarrow> server \<Rightarrow> server" where
  "Disconnect stm reason s =
     (let s1 = s\<lparr>trace := trace s @ [EvDisconnect stm reason]\<rparr>;
          obj = inStreams s1 stm
      in if inDisconnected obj then s1
         else
           (let s2 = s1\<lparr>inStreams := (inStreams s1)(stm := obj\<lparr>inDisconnected := True\<rparr>)\<rparr>
            in case onInDisconnect (inCfg obj) of
                 None \<Rightarrow> s2
               | Some UnregisterInStream \<Rightarrow> unregisterInStream stm s2))"

text \<open>
  The body both \<^verbatim>\<open>Range\<close> calls of \<^verbatim>\<open>stop\<close> share: assert \<^verbatim>\<open>v.(*inStream)\<close>,
  disconnect with the shutdown reason, count. \<^verbatim>\<open>Range\<close> walks the keys present when it
  starts and skips a key whose entry has been deleted meanwhile. The first argument
  selects the map; the count is \<open>None\<close> when the type assertion panicked.
\<close>

fun rangeDisconnect ::
  "(server \<Rightarrow> (string \<times> iface) list) \<Rightarrow> string list \<Rightarrow> server \<Rightarrow> nat \<Rightarrow> server \<times> nat option" where
  "rangeDisconnect conns [] s n = (s, Some n)"
| "rangeDisconnect conns (k # ks) s n =
     (case map_of (conns s) k of
        None \<Rightarrow> rangeDisconnect conns ks s n
      | Some (InStreamPtr stm) \<Rightarrow>
          rangeDisconnect conns ks (Disconnect stm ErrSystemShutdown s) (Suc n)
      | Some (OutStreamPtr stm) \<Rightarrow> (s, None))"

text \<open>
  \<^verbatim>\<open>stop\<close>. The first argument is what \<^verbatim>\<open>s.ln.Close()\<close> answers when it is called:
  nil or an error.
\<close>

definition stop :: "error option \<Rightarrow> server \<Rightarrow> server \<times> error option outcome" where
  "stop closeResult s =
     (if listening s = 1 then
        (let s1 = s\<lparr>listening := 0\<rparr> in
         case ln s1 of
           None \<Rightarrow> (s1, Panicked)
         | Some l \<Rightarrow>
             (let s2 = s1\<lparr>trace := trace s1 @ [EvClose]\<rparr> in
              case closeResult of
                Some err \<Rightarrow> (s2, Returned (Some err))
              | None \<Rightarrow>
                  (case rangeDisconnect outConns (map fst (outConns s2)) s2 0 of
                     (s3, None) \<Rightarrow> (s3, Panicked)
                   | (s3, Some outConnCount) \<Rightarrow>
                       (let s4 = s3\<lparr>trace := trace s3 @ [EvLog (LogClosedOut (cfgID s3) outConnCount)]\<rparr> in
                        case rangeDisconnect inConns (map fst (inConns s4)) s4 0 of
                          (s5, None) \<Rightarrow> (s5, Panicked)
                        | (s5, Some inConnCount) \<Rightarrow>
                            (s5\<lparr>trace := trace s5 @ [EvLog (LogClosedIn (cfgID s5) inConnCount)]\<rparr>,
                             Returned None)))))
      else (s, Returned None))"

text \<open>Any number of \<^verbatim>\<open>stop\<close> calls in a row, each with its own answer of the listener.\<close>

fun stops :: "error option list \<Rightarrow> server \<Rightarrow> server" where
  "stops [] s = s"
| "stops (c # cs) s = stops cs (fst (stop c s))"

subsection \<open>The accept loop\<close>

text \<open>
  What happens around the loop while it runs, in order: \<^verbatim>\<open>ln.Accept()\<close> returns a
  connection or an error, or another goroutine calls \<^verbatim>\<open>stop\<close> while the loop waits in
  \<^verbatim>\<open>Accept\<close>.
\<close>

datatype sched = AcceptReturns "error + string" | StopCalled "error option"

text \<open>
  The loop of \<^verbatim>\<open>listenConn\<close>. \<open>acceptLoop\<close> is the loop condition, \<open>awaitAccept\<close> the
  body from the call of \<^verbatim>\<open>Accept\<close> on. The started goroutine \<^verbatim>\<open>startInStream\<close> runs at
  once. A panic in a concurrent \<^verbatim>\<open>stop\<close> ends the process, and the loop with it. When
  the script is used up inside \<^verbatim>\<open>Accept\<close>, the loop is blocked there.
\<close>

fun acceptLoop :: "sched list \<Rightarrow> server \<Rightarrow> server \<times> error option outcome"
  and awaitAccept :: "sched list \<Rightarrow> server \<Rightarrow> server \<times> error option outcome" where
  "acceptLoop script s =
     (if listening s = 1 then awaitAccept script (s\<lparr>trace := trace s @ [EvAccept]\<rparr>)
      else (s, Returned None))"
| "awaitAccept [] s = (s, Blocked)"
| "awaitAccept (AcceptReturns (Inr conn) # script) s = acceptLoop script (startInStream conn s)"
| "awaitAccept (AcceptReturns (Inl err) # script) s = acceptLoop script s"
| "awaitAccept (StopCalled closeResult # script) s =
     (case stop closeResult s of
        (s1, Panicked) \<Rightarrow> (s1, Panicked)
      | (s1, _) \<Rightarrow> awaitAccept script s1)"

text \<open>
  \<^verbatim>\<open>listenConn\<close>. The first argument is what \<^verbatim>\<open>listenerProvider("tcp", address)\<close>
  answers: an error or a listener.
\<close>

definition listenConn ::
  "error + string \<Rightarrow> sched list \<Rightarrow> string \<Rightarrow> server \<Rightarrow> server \<times> error option outcome" where
  "listenConn provided script address s =
     (case provided of
        Inl err \<Rightarrow> (s\<lparr>trace := trace s @ [EvListen address]\<rparr>, Returned (Some err))
      | Inr l \<Rightarrow>
          acceptLoop script
            (s\<lparr>ln := Some l, listening := 1, trace := trace s @ [EvListen address]\<rparr>))"

subsection \<open>Notions the statements use\<close>

text \<open>
  The server before \<^verbatim>\<open>start\<close>: the zero value of the struct, no stream allocated, no
  call made yet.
\<close>

definition emptyServer :: server where
  "emptyServer =
     \<lparr>cfgID = ''s2s'', ln = None, listening = 0, inConns = [], outConns = [],
      inStreams = (\<lambda>a. \<lparr>inID = [], inCfg = \<lparr>transport = [], onInDisconnect = None\<rparr>,
                           inDisconnected = False\<rparr>),
      outStreams = (\<lambda>a. \<lparr>outCfg = None\<rparr>),
      nextAddr = 0, trace = []\<rparr>"

fun isDial :: "event \<Rightarrow> bool" where
  "isDial (EvDial l r) = True"
| "isDial e = False"

text \<open>The number of calls of \<^verbatim>\<open>dialer.dial\<close> in a trace.\<close>

definition dialCount :: "event list \<Rightarrow> nat" where
  "dialCount t = length (filter isDial t)"

fun ptr :: "iface \<Rightarrow> addr" where
  "ptr (InStreamPtr a) = a"
| "ptr (OutStreamPtr a) = a"

text \<open>
  An entry of the inbound registry as \<^verbatim>\<open>startInStream\<close> leaves it: an \<^verbatim>\<open>*inStream\<close>
  stored under its own identifier, not yet disconnected, holding the unregister callback.
\<close>

definition inEntryOK :: "server \<Rightarrow> string \<times> iface \<Rightarrow> bool" where
  "inEntryOK s e =
     (case snd e of
        InStreamPtr stm \<Rightarrow>
          inID (inStreams s stm) = fst e \<and> \<not> inDisconnected (inStreams s stm)
          \<and> onInDisconnect (inCfg (inStreams s stm)) = Some UnregisterInStream
      | OutStreamPtr stm \<Rightarrow> False)"

definition inRegistered :: "server \<Rightarrow> bool" where
  "inRegistered s = (distinct (map fst (inConns s)) \<and> list_all (inEntryOK s) (inConns s))"

text \<open>Every value in the outbound registry is an \<^verbatim>\<open>*outStream\<close>.\<close>

definition outTyped :: "server \<Rightarrow> bool" where
  "outTyped s =
     list_all (\<lambda>e. case snd e of OutStreamPtr a \<Rightarrow> True | InStreamPtr a \<Rightarrow> False) (outConns s)"

text \<open>Every handle in the inbound registry points to a stream allocated before.\<close>

definition inFresh :: "server \<Rightarrow> bool" where
  "inFresh s = list_all (\<lambda>e. ptr (snd e) < nextAddr s) (inConns s)"

text \<open>What the shutdown sweep does for one inbound entry: the disconnect, then the
  stream's callback unregistering it.\<close>

definition shutdownEvents :: "string \<times> iface \<Rightarrow> event list" where
  "shutdownEvents e =
     [EvDisconnect (ptr (snd e)) ErrSystemShutdown, EvLog (LogUnregisteredIn (fst e))]"

text \<open>Two dialers for the examples: one that connects, one that is refused.\<close>

definition dialOK :: "string \<Rightarrow> string \<Rightarrow> error + outConfig" where
  "dialOK l r = Inr \<lparr>outLocalDomain = l, outRemoteDomain = r, onOutDisconnect = None\<rparr>"

definition dialFails :: "string \<Rightarrow> string \<Rightarrow> error + outConfig" where
  "dialFails l r = Inl ''dial: connection refused''"

section \<open>Properties\<close>

subsection \<open>Auxiliary facts: the maps\<close>

lemma delete_update_absent:
  "map_of al k = None \<Longrightarrow> AList.delete k (AList.update k v al) = al"
  by (simp add: AList.delete_update_same map_of_eq_None_iff)

lemma map_of_Delete_same: "map_of (Delete m k) k = None"
  by (simp add: Delete_def AList.delete_conv')

lemma map_of_Delete_other: "k' \<noteq> k \<Longrightarrow> map_of (Delete m k) k' = map_of m k'"
  by (simp add: Delete_def)

lemma Delete_absent: "map_of m k = None \<Longrightarrow> Delete m k = m"
  by (simp add: Delete_def map_of_eq_None_iff)

lemma map_of_Store: "map_of (Store m k v) k' = (if k' = k then Some v else map_of m k')"
  by (simp add: Store_def AList.update_conv')

lemma set_update_subset: "set (AList.update k v al) \<subseteq> insert (k, v) (set al)"
  by (induction al) auto

lemma set_delete_subset: "set (AList.delete k al) \<subseteq> set al"
  by (auto simp: AList.delete_eq)

subsection \<open>Auxiliary facts: what \<^verbatim>\<open>getOrDial\<close> computes in each branch\<close>

lemma getOrDial_loaded:
  assumes "map_of (outConns s) (A @ '':'' @ B) = Some (OutStreamPtr h)"
  shows "getOrDial d A B s = (snd (newOutStream s), Returned (Some (OutStreamPtr h), None))"
  using assms by (simp add: getOrDial_def newOutStream_def LoadOrStore_def Let_def)

lemma getOrDial_dial_failed:
  assumes "map_of (outConns s) (A @ '':'' @ B) = None" and "d A B = Inl err"
  shows "getOrDial d A B s =
           ((snd (newOutStream s))\<lparr>trace := trace s @ [EvDial A B, EvLog (LogError err)]\<rparr>,
            Returned (None, Some err))"
  using assms
  by (simp add: getOrDial_def newOutStream_def LoadOrStore_def Delete_def Let_def
      delete_update_absent)

lemma getOrDial_dial_ok:
  assumes "map_of (outConns s) (A @ '':'' @ B) = None" and "d A B = Inr cfg"
  shows "getOrDial d A B s =
           (s\<lparr>outStreams := (outStreams s)(nextAddr s :=
                  \<lparr>outCfg = Some (cfg\<lparr>onOutDisconnect := Some UnregisterOutStream\<rparr>)\<rparr>),
               nextAddr := Suc (nextAddr s),
               outConns := AList.update (A @ '':'' @ B) (OutStreamPtr (nextAddr s)) (outConns s),
               trace := trace s @ [EvDial A B,
                  EvStart (nextAddr s) (cfg\<lparr>onOutDisconnect := Some UnregisterOutStream\<rparr>),
                  EvLog (LogRegisteredOut (A @ '':'' @ B))]\<rparr>,
            Returned (Some (OutStreamPtr (nextAddr s)), None))"
  using assms
  by (simp add: getOrDial_def newOutStream_def LoadOrStore_def outStream_start_def Let_def)

lemma getOrDial_dialCount:
  "dialCount (trace (fst (getOrDial d A B s))) =
     (if map_of (outConns s) (A @ '':'' @ B) = None then Suc (dialCount (trace s))
      else dialCount (trace s))"
  by (simp add: getOrDial_def newOutStream_def LoadOrStore_def outStream_start_def Let_def dialCount_def
      split: option.split sum.split iface.split)

lemma getOrDial_never_nil_nil: "snd (getOrDial d A B s) \<noteq> Returned (None, None)"
  by (simp add: getOrDial_def newOutStream_def LoadOrStore_def outStream_start_def Let_def
      split: option.split sum.split iface.split)

lemma unregisterOutStream_started:
  assumes "outID (outStreams s stm) = Some k"
  shows "unregisterOutStream stm s =
           (s\<lparr>outConns := Delete (outConns s) k,
              trace := trace s @ [EvLog (LogUnregisteredOut k)]\<rparr>, Returned ())"
  using assms by (simp add: unregisterOutStream_def)

text \<open>
  The outbound registry only ever holds \<^verbatim>\<open>*outStream\<close> values: \<^verbatim>\<open>getOrDial\<close> is the
  one method that stores there. On such a registry \<^verbatim>\<open>getOrDial\<close> does not panic.
\<close>

lemma outTyped_lookup:
  "outTyped s \<Longrightarrow> map_of (outConns s) k = Some v \<Longrightarrow> \<exists>h. v = OutStreamPtr h"
proof -
  assume t: "outTyped s" and l: "map_of (outConns s) k = Some v"
  from l have "(k, v) \<in> set (outConns s)" by (rule map_of_SomeD)
  with t show ?thesis
    by (cases v) (auto simp: outTyped_def list_all_iff)
qed

lemma getOrDial_outTyped:
  assumes "outTyped s"
  shows "outTyped (fst (getOrDial d A B s)) \<and> snd (getOrDial d A B s) \<noteq> Panicked"
proof (cases "map_of (outConns s) (A @ '':'' @ B)")
  case None
  show ?thesis
  proof (cases "d A B")
    case (Inl err)
    show ?thesis
      using assms by (simp add: getOrDial_dial_failed [where d=d, OF None Inl] newOutStream_def outTyped_def)
  next
    case (Inr cfg)
    have "list_all (\<lambda>e. case snd e of OutStreamPtr a \<Rightarrow> True | InStreamPtr a \<Rightarrow> False)
            (AList.update (A @ '':'' @ B) (OutStreamPtr (nextAddr s)) (outConns s))"
      using assms set_update_subset [of "A @ '':'' @ B" "OutStreamPtr (nextAddr s)" "outConns s"]
      by (auto simp: outTyped_def list_all_iff)
    then show ?thesis
      by (simp add: getOrDial_dial_ok [where d=d, OF None Inr] outTyped_def)
  qed
next
  case (Some v)
  with assms obtain h where "v = OutStreamPtr h" by (auto dest: outTyped_lookup)
  with Some have "map_of (outConns s) (A @ '':'' @ B) = Some (OutStreamPtr h)" by simp
  then show ?thesis
    using assms by (simp add: getOrDial_loaded newOutStream_def outTyped_def)
qed

lemma unregisterOutStream_outTyped:
  "outTyped s \<Longrightarrow> outTyped (fst (unregisterOutStream stm s))"
  using set_delete_subset [of _ "outConns s"]
  by (auto simp: unregisterOutStream_def outTyped_def Delete_def list_all_iff split: option.splits)

subsection \<open>Auxiliary facts: shutdown\<close>

lemma Disconnect_listening [simp]: "listening (Disconnect stm r s) = listening s"
  by (simp add: Disconnect_def unregisterInStream_def Let_def split: option.split inCallback.split)

lemma Disconnect_closes [simp]:
  "count_list (trace (Disconnect stm r s)) EvClose = count_list (trace s) EvClose"
  by (simp add: Disconnect_def unregisterInStream_def Let_def split: option.split inCallback.split)

lemma rangeDisconnect_listening:
  "rangeDisconnect conns ks s n = (s', r) \<Longrightarrow> listening s' = listening s"
  by (induction ks arbitrary: s n) (auto split: option.splits iface.splits)

lemma rangeDisconnect_closes:
  "rangeDisconnect conns ks s n = (s', r) \<Longrightarrow>
     count_list (trace s') EvClose = count_list (trace s) EvClose"
  by (induction ks arbitrary: s n) (auto split: option.splits iface.splits)

lemma stop_not_listening: "listening s \<noteq> 1 \<Longrightarrow> stop c s = (s, Returned None)"
  by (simp add: stop_def)

lemma stop_listening: "listening (fst (stop c s)) \<noteq> 1"
  by (auto simp: stop_def Let_def split: option.splits prod.splits
      dest!: rangeDisconnect_listening)

lemma stop_closes:
  "count_list (trace (fst (stop c s))) EvClose \<le> Suc (count_list (trace s) EvClose)"
  by (auto simp: stop_def Let_def split: option.splits prod.splits
      dest!: rangeDisconnect_closes)

lemma stops_stopped: "listening s \<noteq> 1 \<Longrightarrow> stops cs s = s"
  by (induction cs) (simp_all add: stop_not_listening)

lemma Disconnect_accepts [simp]:
  "count_list (trace (Disconnect stm r s)) EvAccept = count_list (trace s) EvAccept"
  by (simp add: Disconnect_def unregisterInStream_def Let_def split: option.split inCallback.split)

lemma rangeDisconnect_accepts:
  "rangeDisconnect conns ks s n = (s', r) \<Longrightarrow>
     count_list (trace s') EvAccept = count_list (trace s) EvAccept"
  by (induction ks arbitrary: s n) (auto split: option.splits iface.splits)

lemma stop_accepts:
  "count_list (trace (fst (stop c s))) EvAccept = count_list (trace s) EvAccept"
  by (auto simp: stop_def Let_def split: option.splits prod.splits
      dest!: rangeDisconnect_accepts)

lemma Disconnect_registered:
  assumes "inID (inStreams s stm) = k" "\<not> inDisconnected (inStreams s stm)"
    "onInDisconnect (inCfg (inStreams s stm)) = Some UnregisterInStream"
  shows "Disconnect stm r s =
     s\<lparr>trace := trace s @ [EvDisconnect stm r, EvLog (LogUnregisteredIn k)],
       inStreams := (inStreams s)(stm := (inStreams s stm)\<lparr>inDisconnected := True\<rparr>),
       inConns := Delete (inConns s) k\<rparr>"
  using assms by (simp add: Disconnect_def unregisterInStream_def Let_def)

lemma rangeDisconnect_inConns:
  assumes "inConns s = al" "distinct (map fst al)" "list_all (inEntryOK s) al"
  shows "snd (rangeDisconnect inConns (map fst al) s n) = Some (n + length al)
       \<and> inConns (fst (rangeDisconnect inConns (map fst al) s n)) = []
       \<and> trace (fst (rangeDisconnect inConns (map fst al) s n)) = trace s @ concat (map shutdownEvents al)
       \<and> outConns (fst (rangeDisconnect inConns (map fst al) s n)) = outConns s
       \<and> cfgID (fst (rangeDisconnect inConns (map fst al) s n)) = cfgID s"
  using assms
proof (induction al arbitrary: s n)
  case Nil
  then show ?case by simp
next
  case (Cons e al)
  obtain k v where e: "e = (k, v)" by (cases e)
  from Cons.prems e obtain stm where v: "v = InStreamPtr stm"
    and ok: "inID (inStreams s stm) = k" "\<not> inDisconnected (inStreams s stm)"
      "onInDisconnect (inCfg (inStreams s stm)) = Some UnregisterInStream"
    by (auto simp: inEntryOK_def split: iface.splits)
  let ?s1 = "Disconnect stm ErrSystemShutdown s"
  have s1: "?s1 = s\<lparr>trace := trace s @ [EvDisconnect stm ErrSystemShutdown, EvLog (LogUnregisteredIn k)],
       inStreams := (inStreams s)(stm := (inStreams s stm)\<lparr>inDisconnected := True\<rparr>),
       inConns := Delete (inConns s) k\<rparr>"
    by (rule Disconnect_registered [OF ok])
  have knotin: "k \<notin> fst ` set al" using Cons.prems(2) e by simp
  have conns1: "inConns ?s1 = al"
    using Cons.prems(1) e knotin by (simp add: s1 Delete_def)
  have rest: "list_all (inEntryOK ?s1) al"
    unfolding list_all_iff
  proof
    fix x assume x: "x \<in> set al"
    then have okx: "inEntryOK s x" using Cons.prems(3) by (simp add: list_all_iff)
    have "fst x \<noteq> k" using x knotin by auto
    with okx ok(1) show "inEntryOK ?s1 x"
      by (auto simp: inEntryOK_def s1 split: iface.splits)
  qed
  have dist: "distinct (map fst al)" using Cons.prems(2) by simp
  have step: "rangeDisconnect inConns (map fst (e # al)) s n = rangeDisconnect inConns (map fst al) ?s1 (Suc n)"
    using Cons.prems(1) e v by simp
  have tr1: "trace ?s1 = trace s @ shutdownEvents e"
    by (simp add: s1 shutdownEvents_def e v)
  have o1: "outConns ?s1 = outConns s" "cfgID ?s1 = cfgID s" by (simp_all add: s1)
  from Cons.IH [OF conns1 dist rest, of "Suc n"] show ?case
    unfolding step by (simp add: tr1 o1)
qed

lemma inEntryOK_inStreams: "inStreams s' = inStreams s \<Longrightarrow> inEntryOK s' = inEntryOK s"
  by (rule ext) (simp add: inEntryOK_def split: iface.split)

text \<open>
  \<^verbatim>\<open>startInStream\<close> keeps the inbound registry in the shape the shutdown sweep relies
  on.
\<close>

lemma startInStream_inRegistered:
  assumes "inRegistered s" and "inFresh s"
  shows "inRegistered (startInStream tr s) \<and> inFresh (startInStream tr s)"
proof -
  let ?n = "nextAddr s"
  let ?s' = "startInStream tr s"
  have conns: "inConns ?s' = AList.update tr (InStreamPtr ?n) (inConns s)"
    by (simp add: startInStream_def newInStream_def registerInStream_def Store_def)
  have heap: "inStreams ?s' = (inStreams s)(?n :=
      \<lparr>inID = tr, inCfg = \<lparr>transport = tr, onInDisconnect = Some UnregisterInStream\<rparr>,
       inDisconnected = False\<rparr>)"
    by (simp add: startInStream_def newInStream_def registerInStream_def)
  have nxt: "nextAddr ?s' = Suc ?n"
    by (simp add: startInStream_def newInStream_def registerInStream_def)
  have dist: "distinct (map fst (inConns ?s'))"
    using assms(1) by (simp add: conns inRegistered_def AList.distinct_update)
  have each: "inEntryOK ?s' e \<and> ptr (snd e) < nextAddr ?s'" if e: "e \<in> set (inConns ?s')" for e
  proof (cases "e = (tr, InStreamPtr ?n)")
    case True
    then show ?thesis by (simp add: inEntryOK_def heap nxt)
  next
    case False
    with e set_update_subset [of tr "InStreamPtr ?n" "inConns s"] have old: "e \<in> set (inConns s)"
      by (auto simp: conns)
    then have ok: "inEntryOK s e" and fr: "ptr (snd e) < ?n"
      using assms by (simp_all add: inRegistered_def inFresh_def list_all_iff)
    then show ?thesis
      by (auto simp: inEntryOK_def heap nxt split: iface.splits)
  qed
  show ?thesis
    using dist each by (simp add: inRegistered_def inFresh_def list_all_iff)
qed

subsection \<open>Auxiliary facts: the accept loop\<close>

lemma startInStream_listening [simp]: "listening (startInStream conn s) = listening s"
  by (simp add: startInStream_def newInStream_def registerInStream_def)

lemma startInStream_accepts [simp]:
  "count_list (trace (startInStream conn s)) EvAccept = count_list (trace s) EvAccept"
  by (simp add: startInStream_def newInStream_def registerInStream_def)

text \<open>What one iteration does with the answer of Accept.\<close>

lemma awaitAccept_returns:
  "awaitAccept (AcceptReturns r # script) s =
     acceptLoop script (case r of Inl err \<Rightarrow> s | Inr conn \<Rightarrow> startInStream conn s)"
  by (cases r) simp_all

lemma acceptLoop_not_listening: "listening s \<noteq> 1 \<Longrightarrow> acceptLoop script s = (s, Returned None)"
  by simp

lemma acceptLoop_listening:
  "listening s = 1 \<Longrightarrow> acceptLoop script s = awaitAccept script (s\<lparr>trace := trace s @ [EvAccept]\<rparr>)"
  by simp

declare acceptLoop.simps [simp del]

lemma acceptLoop_no_stop:
  assumes "listening s = 1"
  shows "snd (acceptLoop (map AcceptReturns rs) s) = Blocked
       \<and> listening (fst (acceptLoop (map AcceptReturns rs) s)) = 1
       \<and> count_list (trace (fst (acceptLoop (map AcceptReturns rs) s))) EvAccept
           = count_list (trace s) EvAccept + Suc (length rs)"
  using assms
proof (induction rs arbitrary: s)
  case Nil
  then show ?case by (simp add: acceptLoop_listening)
next
  case (Cons r rs)
  let ?s1 = "case r of Inl err \<Rightarrow> s\<lparr>trace := trace s @ [EvAccept]\<rparr>
                     | Inr conn \<Rightarrow> startInStream conn (s\<lparr>trace := trace s @ [EvAccept]\<rparr>)"
  have l1: "listening ?s1 = 1" using Cons.prems by (simp split: sum.split)
  have c1: "count_list (trace ?s1) EvAccept = Suc (count_list (trace s) EvAccept)"
    by (simp split: sum.split)
  have step: "acceptLoop (map AcceptReturns (r # rs)) s = acceptLoop (map AcceptReturns rs) ?s1"
    using Cons.prems by (simp add: acceptLoop_listening awaitAccept_returns)
  from Cons.IH [OF l1] show ?case
    unfolding step by (simp add: c1)
qed

lemma acceptLoop_stop_then_return:
  assumes "listening s = 1"
  shows "acceptLoop (StopCalled c # AcceptReturns r # rest) s
           = acceptLoop [StopCalled c, AcceptReturns r] s
       \<and> snd (acceptLoop (StopCalled c # AcceptReturns r # rest) s) \<noteq> Blocked
       \<and> count_list (trace (fst (acceptLoop (StopCalled c # AcceptReturns r # rest) s))) EvAccept
           = Suc (count_list (trace s) EvAccept)"
proof -
  let ?s0 = "s\<lparr>trace := trace s @ [EvAccept]\<rparr>"
  obtain s1 o1 where st: "stop c ?s0 = (s1, o1)" by (cases "stop c ?s0")
  have l1: "listening s1 \<noteq> 1" using stop_listening [of c ?s0] st by simp
  have c1: "count_list (trace s1) EvAccept = Suc (count_list (trace s) EvAccept)"
    using stop_accepts [of c ?s0] st by simp
  let ?s2 = "case r of Inl err \<Rightarrow> s1 | Inr conn \<Rightarrow> startInStream conn s1"
  have l2: "listening ?s2 \<noteq> 1" using l1 by (simp split: sum.split)
  have c2: "count_list (trace ?s2) EvAccept = Suc (count_list (trace s) EvAccept)"
    using c1 by (simp split: sum.split)
  have gen: "acceptLoop (StopCalled c # AcceptReturns r # script) s =
      (if o1 = Panicked then (s1, Panicked) else (?s2, Returned None))" for script
    using assms st l2
    by (cases o1) (simp_all add: acceptLoop_listening awaitAccept_returns acceptLoop_not_listening)
  show ?thesis
    using c1 c2 by (simp add: gen)
qed

lemma acceptLoop_append_accepts:
  assumes "listening s = 1"
  shows "\<exists>s'. listening s' = 1
        \<and> count_list (trace s') EvAccept = count_list (trace s) EvAccept + length rs
        \<and> (\<forall>script. acceptLoop (map AcceptReturns rs @ script) s = acceptLoop script s')"
  using assms
proof (induction rs arbitrary: s)
  case Nil
  then show ?case by auto
next
  case (Cons r rs)
  let ?s1 = "case r of Inl err \<Rightarrow> s\<lparr>trace := trace s @ [EvAccept]\<rparr>
                     | Inr conn \<Rightarrow> startInStream conn (s\<lparr>trace := trace s @ [EvAccept]\<rparr>)"
  have l1: "listening ?s1 = 1" using Cons.prems by (simp split: sum.split)
  have c1: "count_list (trace ?s1) EvAccept = Suc (count_list (trace s) EvAccept)"
    by (simp split: sum.split)
  have step: "acceptLoop (map AcceptReturns (r # rs) @ script) s
                = acceptLoop (map AcceptReturns rs @ script) ?s1" for script
    using Cons.prems by (simp add: acceptLoop_listening awaitAccept_returns)
  from Cons.IH [OF l1] obtain s' where "listening s' = 1"
    "count_list (trace s') EvAccept = count_list (trace ?s1) EvAccept + length rs"
    "\<forall>script. acceptLoop (map AcceptReturns rs @ script) ?s1 = acceptLoop script s'"
    by blast
  then show ?case
    unfolding step using c1 by (intro exI [of _ s']) simp
qed

lemma acceptLoop_errors:
  assumes "listening s = 1"
  shows "acceptLoop (replicate n (AcceptReturns (Inl err)) @ script) s
           = acceptLoop script (s\<lparr>trace := trace s @ replicate n EvAccept\<rparr>)"
  using assms
proof (induction n arbitrary: s)
  case 0
  then show ?case by simp
next
  case (Suc n)
  let ?s1 = "s\<lparr>trace := trace s @ [EvAccept]\<rparr>"
  have l1: "listening ?s1 = 1" using Suc.prems by simp
  have "acceptLoop (replicate (Suc n) (AcceptReturns (Inl err)) @ script) s
          = acceptLoop (replicate n (AcceptReturns (Inl err)) @ script) ?s1"
    using Suc.prems by (simp add: acceptLoop_listening)
  also have "\<dots> = acceptLoop script (?s1\<lparr>trace := trace ?s1 @ replicate n EvAccept\<rparr>)"
    by (rule Suc.IH [OF l1])
  finally show ?case by (simp add: replicate_app_Cons_same)
qed

subsection \<open>The outbound registry\<close>

text \<open>
  C1. A call of \<^verbatim>\<open>getOrDial\<close> that finds an entry under the key
  \<^verbatim>\<open>localDomain + ":" + remoteDomain\<close> returns the handle stored there with a nil error,
  leaves the registry as it is and makes no call at all (the trace is unchanged, so the
  dialer is not invoked). The dialer is invoked exactly once by a call that finds no
  entry and never by a call that finds one: the one \<^verbatim>\<open>LoadOrStore\<close> decides. After a
  call that created the entry and whose dial succeeded, a second call returns the very
  same handle, whatever the dialer would answer now, and dials nothing.
\<close>

theorem getOrDial_deduplicates:
  "(map_of (outConns s) (A @ '':'' @ B) = Some (OutStreamPtr h) \<longrightarrow>
      snd (getOrDial d A B s) = Returned (Some (OutStreamPtr h), None)
      \<and> outConns (fst (getOrDial d A B s)) = outConns s
      \<and> trace (fst (getOrDial d A B s)) = trace s)
   \<and> dialCount (trace (fst (getOrDial d A B s))) =
       (if map_of (outConns s) (A @ '':'' @ B) = None then Suc (dialCount (trace s))
        else dialCount (trace s))
   \<and> (map_of (outConns s) (A @ '':'' @ B) = None \<and> d A B = Inr cfg \<longrightarrow>
        snd (getOrDial d A B s) = Returned (Some (OutStreamPtr (nextAddr s)), None)
        \<and> snd (getOrDial d' A B (fst (getOrDial d A B s))) = snd (getOrDial d A B s)
        \<and> trace (fst (getOrDial d' A B (fst (getOrDial d A B s))))
            = trace (fst (getOrDial d A B s)))"
proof (intro conjI impI)
  assume h: "map_of (outConns s) (A @ '':'' @ B) = Some (OutStreamPtr h)"
  show "snd (getOrDial d A B s) = Returned (Some (OutStreamPtr h), None)"
    and "outConns (fst (getOrDial d A B s)) = outConns s"
    and "trace (fst (getOrDial d A B s)) = trace s"
    by (simp_all add: getOrDial_loaded [OF h] newOutStream_def)
next
  show "dialCount (trace (fst (getOrDial d A B s))) =
       (if map_of (outConns s) (A @ '':'' @ B) = None then Suc (dialCount (trace s))
        else dialCount (trace s))"
    by (rule getOrDial_dialCount)
next
  assume a: "map_of (outConns s) (A @ '':'' @ B) = None \<and> d A B = Inr cfg"
  let ?s1 = "fst (getOrDial d A B s)"
  have first: "snd (getOrDial d A B s) = Returned (Some (OutStreamPtr (nextAddr s)), None)"
    using a by (simp add: getOrDial_dial_ok)
  have slot: "map_of (outConns ?s1) (A @ '':'' @ B) = Some (OutStreamPtr (nextAddr s))"
    using a by (simp add: getOrDial_dial_ok AList.update_conv')
  show "snd (getOrDial d A B s) = Returned (Some (OutStreamPtr (nextAddr s)), None)"
    by (rule first)
  show "snd (getOrDial d' A B ?s1) = snd (getOrDial d A B s)"
    by (simp add: getOrDial_loaded [OF slot] first)
  show "trace (fst (getOrDial d' A B ?s1)) = trace ?s1"
    by (simp add: getOrDial_loaded [OF slot] newOutStream_def)
qed

theorem getOrDial_deduplicates_witness:
  "snd (getOrDial dialOK ''a.example'' ''b.example'' emptyServer)
     = Returned (Some (OutStreamPtr 0), None)
   \<and> snd (getOrDial dialFails ''a.example'' ''b.example''
        (fst (getOrDial dialOK ''a.example'' ''b.example'' emptyServer)))
     = Returned (Some (OutStreamPtr 0), None)
   \<and> dialCount (trace (fst (getOrDial dialFails ''a.example'' ''b.example''
        (fst (getOrDial dialOK ''a.example'' ''b.example'' emptyServer))))) = 1"
  using getOrDial_deduplicates [of emptyServer "''a.example''" "''b.example''" 0 dialOK
      "\<lparr>outLocalDomain = ''a.example'', outRemoteDomain = ''b.example'', onOutDisconnect = None\<rparr>"
      dialFails]
  by (simp add: emptyServer_def dialOK_def dialCount_def)

text \<open>
  The key is the plain concatenation. Two pairs whose concatenations coincide share one
  slot; this needs a colon inside a domain name.
\<close>

lemma domainPair_shared_slot:
  "snd (getOrDial dialFails ''a'' ''b:c'' (fst (getOrDial dialOK ''a:b'' ''c'' emptyServer)))
     = Returned (Some (OutStreamPtr 0), None)"
  by (simp add: getOrDial_def newOutStream_def LoadOrStore_def outStream_start_def Let_def
      dialOK_def emptyServer_def)

text \<open>
  C9. A call of \<^verbatim>\<open>getOrDial\<close> that finds an entry returns it with a nil error and
  without a dial, for every dialer and whatever state the stream behind the handle is in:
  the call neither reads nor writes that stream, so a stream that was never started (its
  dial in flight, or about to fail and be rolled back) is handed out as it is. No call
  returns a nil handle together with a nil error.
\<close>

theorem getOrDial_returns_existing:
  "(map_of (outConns s) (A @ '':'' @ B) = Some (OutStreamPtr h) \<longrightarrow>
      getOrDial d A B s = (snd (newOutStream s), Returned (Some (OutStreamPtr h), None))
      \<and> dialCount (trace (fst (getOrDial d A B s))) = dialCount (trace s)
      \<and> (h \<noteq> nextAddr s \<longrightarrow> outStreams (fst (getOrDial d A B s)) h = outStreams s h))
   \<and> snd (getOrDial d A B s) \<noteq> Returned (None, None)"
proof (intro conjI impI)
  assume h: "map_of (outConns s) (A @ '':'' @ B) = Some (OutStreamPtr h)"
  show "getOrDial d A B s = (snd (newOutStream s), Returned (Some (OutStreamPtr h), None))"
    by (rule getOrDial_loaded [OF h])
  show "dialCount (trace (fst (getOrDial d A B s))) = dialCount (trace s)"
    using h by (simp add: getOrDial_dialCount)
  show "outStreams (fst (getOrDial d A B s)) h = outStreams s h" if "h \<noteq> nextAddr s"
    using that by (simp add: getOrDial_loaded [OF h] newOutStream_def)
next
  show "snd (getOrDial d A B s) \<noteq> Returned (None, None)"
    by (rule getOrDial_never_nil_nil)
qed

theorem getOrDial_returns_existing_witness:
  "getOrDial dialFails ''a.example'' ''b.example''
      (emptyServer\<lparr>outConns := [(''a.example:b.example'', OutStreamPtr 0)], nextAddr := 1\<rparr>)
     = (emptyServer\<lparr>outConns := [(''a.example:b.example'', OutStreamPtr 0)], nextAddr := 2,
          outStreams := (outStreams emptyServer)(1 := \<lparr>outCfg = None\<rparr>)\<rparr>,
        Returned (Some (OutStreamPtr 0), None))
   \<and> outCfg (outStreams emptyServer 0) = None"
  using getOrDial_returns_existing
    [of "emptyServer\<lparr>outConns := [(''a.example:b.example'', OutStreamPtr 0)], nextAddr := 1\<rparr>"
        "''a.example''" "''b.example''" 0 dialFails]
  by (simp add: emptyServer_def newOutStream_def)

text \<open>
  C3. When the call finds no entry (so that it is the one that reserves the slot and asks
  the dialer) and the dialer answers with an error, \<^verbatim>\<open>getOrDial\<close> returns a nil handle
  and that error, after one dial and one error line in the log; the key is absent
  afterwards, indeed the registry is what it was before the call; and a later call for the
  same pair asks the dialer again.
\<close>

theorem getOrDial_dial_error_rolls_back:
  assumes "map_of (outConns s) (A @ '':'' @ B) = None" and "d A B = Inl err"
  shows "snd (getOrDial d A B s) = Returned (None, Some err)
       \<and> map_of (outConns (fst (getOrDial d A B s))) (A @ '':'' @ B) = None
       \<and> outConns (fst (getOrDial d A B s)) = outConns s
       \<and> trace (fst (getOrDial d A B s)) = trace s @ [EvDial A B, EvLog (LogError err)]
       \<and> dialCount (trace (fst (getOrDial d2 A B (fst (getOrDial d A B s)))))
           = Suc (dialCount (trace (fst (getOrDial d A B s))))"
proof -
  let ?s1 = "fst (getOrDial d A B s)"
  have conns: "outConns ?s1 = outConns s"
    by (simp add: getOrDial_dial_failed [where d=d, OF assms] newOutStream_def)
  then have absent: "map_of (outConns ?s1) (A @ '':'' @ B) = None"
    using assms(1) by simp
  have "dialCount (trace (fst (getOrDial d2 A B ?s1))) = Suc (dialCount (trace ?s1))"
    using absent by (simp add: getOrDial_dialCount)
  with conns absent show ?thesis
    by (simp add: getOrDial_dial_failed [where d=d, OF assms] newOutStream_def)
qed

theorem getOrDial_dial_error_rolls_back_witness:
  "snd (getOrDial dialFails ''a.example'' ''b.example'' emptyServer)
     = Returned (None, Some ''dial: connection refused'')
   \<and> outConns (fst (getOrDial dialFails ''a.example'' ''b.example'' emptyServer)) = []
   \<and> snd (getOrDial dialOK ''a.example'' ''b.example''
        (fst (getOrDial dialFails ''a.example'' ''b.example'' emptyServer)))
     = Returned (Some (OutStreamPtr 1), None)"
  using getOrDial_dial_error_rolls_back [of emptyServer "''a.example''" "''b.example''" dialFails
      "''dial: connection refused''" dialOK]
  by (simp add: emptyServer_def dialFails_def dialOK_def getOrDial_def newOutStream_def
      LoadOrStore_def Delete_def outStream_start_def Let_def)

text \<open>
  C6. When \<^verbatim>\<open>unregisterOutStream\<close> is called with a stream whose identifier is the key
  of the pair, the key is absent afterwards, and the next \<^verbatim>\<open>getOrDial\<close> for the pair
  takes the create branch: it asks the dialer once more and, when the dial succeeds,
  returns and registers a newly allocated handle; when the dial fails it returns the
  error.
\<close>

theorem unregisterOutStream_then_getOrDial:
  assumes "outID (outStreams s stm) = Some (A @ '':'' @ B)"
  shows "snd (unregisterOutStream stm s) = Returned ()
       \<and> map_of (outConns (fst (unregisterOutStream stm s))) (A @ '':'' @ B) = None
       \<and> dialCount (trace (fst (getOrDial d A B (fst (unregisterOutStream stm s)))))
           = Suc (dialCount (trace s))
       \<and> (d A B = Inr cfg \<longrightarrow>
            snd (getOrDial d A B (fst (unregisterOutStream stm s)))
              = Returned (Some (OutStreamPtr (nextAddr s)), None)
            \<and> map_of (outConns (fst (getOrDial d A B (fst (unregisterOutStream stm s)))))
                (A @ '':'' @ B) = Some (OutStreamPtr (nextAddr s))
            \<and> trace (fst (getOrDial d A B (fst (unregisterOutStream stm s))))
                = trace s @ [EvLog (LogUnregisteredOut (A @ '':'' @ B)), EvDial A B,
                    EvStart (nextAddr s) (cfg\<lparr>onOutDisconnect := Some UnregisterOutStream\<rparr>),
                    EvLog (LogRegisteredOut (A @ '':'' @ B))])
       \<and> (d A B = Inl err \<longrightarrow>
            snd (getOrDial d A B (fst (unregisterOutStream stm s))) = Returned (None, Some err))"
proof -
  let ?s1 = "fst (unregisterOutStream stm s)"
  have s1: "unregisterOutStream stm s =
      (s\<lparr>outConns := Delete (outConns s) (A @ '':'' @ B),
         trace := trace s @ [EvLog (LogUnregisteredOut (A @ '':'' @ B))]\<rparr>, Returned ())"
    by (rule unregisterOutStream_started [OF assms])
  have absent: "map_of (outConns ?s1) (A @ '':'' @ B) = None"
    by (simp add: s1 map_of_Delete_same)
  have cnt: "dialCount (trace (fst (getOrDial d A B ?s1))) = Suc (dialCount (trace s))"
    using absent by (simp add: getOrDial_dialCount) (simp add: s1 dialCount_def)
  have ok: "snd (getOrDial d A B ?s1) = Returned (Some (OutStreamPtr (nextAddr s)), None)
      \<and> map_of (outConns (fst (getOrDial d A B ?s1))) (A @ '':'' @ B) = Some (OutStreamPtr (nextAddr s))
      \<and> trace (fst (getOrDial d A B ?s1))
          = trace s @ [EvLog (LogUnregisteredOut (A @ '':'' @ B)), EvDial A B,
               EvStart (nextAddr s) (cfg\<lparr>onOutDisconnect := Some UnregisterOutStream\<rparr>),
               EvLog (LogRegisteredOut (A @ '':'' @ B))]"
    if "d A B = Inr cfg"
    by (simp add: getOrDial_dial_ok [where d=d, OF absent that] AList.update_conv') (simp add: s1)
  have failed: "snd (getOrDial d A B ?s1) = Returned (None, Some err)" if "d A B = Inl err"
    by (simp add: getOrDial_dial_failed [where d=d, OF absent that])
  from absent cnt ok failed show ?thesis
    by (simp add: s1)
qed

theorem unregisterOutStream_then_getOrDial_witness:
  "snd (getOrDial dialOK ''a.example'' ''b.example'' emptyServer) = Returned (Some (OutStreamPtr 0), None)
   \<and> outConns (fst (unregisterOutStream 0 (fst (getOrDial dialOK ''a.example'' ''b.example'' emptyServer)))) = []
   \<and> snd (getOrDial dialOK ''a.example'' ''b.example''
        (fst (unregisterOutStream 0 (fst (getOrDial dialOK ''a.example'' ''b.example'' emptyServer)))))
      = Returned (Some (OutStreamPtr 1), None)
   \<and> dialCount (trace (fst (getOrDial dialOK ''a.example'' ''b.example''
        (fst (unregisterOutStream 0 (fst (getOrDial dialOK ''a.example'' ''b.example'' emptyServer))))))) = 2"
  using unregisterOutStream_then_getOrDial
    [of "fst (getOrDial dialOK ''a.example'' ''b.example'' emptyServer)" 0
        "''a.example''" "''b.example''" dialOK
        "\<lparr>outLocalDomain = ''a.example'', outRemoteDomain = ''b.example'', onOutDisconnect = None\<rparr>"
        "''none''"]
  by (simp add: emptyServer_def dialOK_def getOrDial_def newOutStream_def LoadOrStore_def
      Delete_def outStream_start_def unregisterOutStream_def outID_def dialCount_def Let_def)

subsection \<open>The inbound registry\<close>

text \<open>
  C8. \<^verbatim>\<open>registerInStream\<close> stores the handle under the stream's identifier and touches
  no other key; \<^verbatim>\<open>unregisterInStream\<close> removes the entry of that identifier and touches
  no other key; when the identifier is not in the registry, the registry is left as it
  was. Neither method has a failing branch.
\<close>

theorem registerInStream_unregisterInStream:
  "map_of (inConns (registerInStream stm s)) (inID (inStreams s stm)) = Some (InStreamPtr stm)
   \<and> (k \<noteq> inID (inStreams s stm) \<longrightarrow>
        map_of (inConns (registerInStream stm s)) k = map_of (inConns s) k)
   \<and> map_of (inConns (unregisterInStream stm s)) (inID (inStreams s stm)) = None
   \<and> (k \<noteq> inID (inStreams s stm) \<longrightarrow>
        map_of (inConns (unregisterInStream stm s)) k = map_of (inConns s) k)
   \<and> (map_of (inConns s) (inID (inStreams s stm)) = None \<longrightarrow>
        inConns (unregisterInStream stm s) = inConns s)
   \<and> outConns (registerInStream stm s) = outConns s
   \<and> outConns (unregisterInStream stm s) = outConns s"
  by (simp add: registerInStream_def unregisterInStream_def map_of_Store map_of_Delete_same
      map_of_Delete_other Delete_absent)

theorem registerInStream_unregisterInStream_witness:
  "inConns (startInStream ''c1'' emptyServer) = [(''c1'', InStreamPtr 0)]
   \<and> inConns (unregisterInStream 0 (startInStream ''c1'' emptyServer)) = []
   \<and> inConns (unregisterInStream 0 (unregisterInStream 0 (startInStream ''c1'' emptyServer))) = []
   \<and> map_of (inConns (unregisterInStream 0 (startInStream ''c2'' (startInStream ''c1'' emptyServer))))
        ''c2'' = Some (InStreamPtr 1)"
  using registerInStream_unregisterInStream
    [of 0 "startInStream ''c2'' (startInStream ''c1'' emptyServer)" "''c2''"]
  by (simp add: startInStream_def newInStream_def registerInStream_def unregisterInStream_def
      Store_def Delete_def emptyServer_def)

subsection \<open>Shutdown\<close>

text \<open>
  C10. When the call of \<^verbatim>\<open>stop\<close> that wins the flag gets an error from
  \<^verbatim>\<open>s.ln.Close()\<close>, it returns that error at once: the flag is 0, the close is in the
  trace, and nothing else changed. No stream was disconnected and both registries are as
  they were.
\<close>

theorem stop_close_error:
  assumes "listening s = 1" and "ln s = Some l"
  shows "stop (Some err) s =
           (s\<lparr>listening := 0, trace := trace s @ [EvClose]\<rparr>, Returned (Some err))
       \<and> inConns (fst (stop (Some err) s)) = inConns s
       \<and> outConns (fst (stop (Some err) s)) = outConns s
       \<and> trace (fst (stop (Some err) s)) = trace s @ [EvClose]"
  using assms by (simp add: stop_def)

theorem stop_close_error_witness:
  "snd (stop (Some ''close: bad file descriptor'')
          (startInStream ''c1'' (emptyServer\<lparr>ln := Some ''[::]:5269'', listening := 1\<rparr>)))
     = Returned (Some ''close: bad file descriptor'')
   \<and> inConns (fst (stop (Some ''close: bad file descriptor'')
          (startInStream ''c1'' (emptyServer\<lparr>ln := Some ''[::]:5269'', listening := 1\<rparr>))))
     = [(''c1'', InStreamPtr 0)]
   \<and> trace (fst (stop (Some ''close: bad file descriptor'')
          (startInStream ''c1'' (emptyServer\<lparr>ln := Some ''[::]:5269'', listening := 1\<rparr>))))
     = [EvLog (LogRegisteredIn ''c1''), EvClose]"
  using stop_close_error [of "startInStream ''c1'' (emptyServer\<lparr>ln := Some ''[::]:5269'', listening := 1\<rparr>)"
      "''[::]:5269''" "''close: bad file descriptor''"]
  by (simp add: startInStream_def newInStream_def registerInStream_def Store_def emptyServer_def)

text \<open>
  The sweep of the outbound registry asserts \<^verbatim>\<open>v.(*inStream)\<close> on values that
  \<^verbatim>\<open>getOrDial\<close> stored as \<^verbatim>\<open>*outStream\<close>: with an outbound entry first in line, \<^verbatim>\<open>stop\<close>
  panics after the close, before any stream is disconnected.
\<close>

lemma stop_outbound_panics:
  assumes "listening s = 1" and "ln s = Some l" and "outConns s = (k, OutStreamPtr h) # rest"
  shows "stop None s = (s\<lparr>listening := 0, trace := trace s @ [EvClose]\<rparr>, Panicked)"
  using assms by (simp add: stop_def)

lemma stop_outbound_panics_example:
  "stop None (fst (getOrDial dialOK ''a.example'' ''b.example''
       (emptyServer\<lparr>ln := Some ''[::]:5269'', listening := 1\<rparr>)))
   = ((fst (getOrDial dialOK ''a.example'' ''b.example''
       (emptyServer\<lparr>ln := Some ''[::]:5269'', listening := 1\<rparr>)))
        \<lparr>listening := 0,
         trace := [EvDial ''a.example'' ''b.example'',
           EvStart 0 \<lparr>outLocalDomain = ''a.example'', outRemoteDomain = ''b.example'',
                      onOutDisconnect = Some UnregisterOutStream\<rparr>,
           EvLog (LogRegisteredOut ''a.example:b.example''), EvClose]\<rparr>, Panicked)"
  by (simp add: stop_def getOrDial_def newOutStream_def LoadOrStore_def outStream_start_def Let_def
      dialOK_def emptyServer_def)

text \<open>
  C2, as the claim states it, fails where C10 applies: \<^verbatim>\<open>stop\<close> wins the flag, the close
  returns an error, \<^verbatim>\<open>stop\<close> completes, and the registered inbound stream has received no
  disconnect and is still registered.
\<close>

theorem stop_disconnects_all_counterexample:
  "listening (startInStream ''c1'' (emptyServer\<lparr>ln := Some ''[::]:5269'', listening := 1\<rparr>)) = 1
   \<and> inConns (startInStream ''c1'' (emptyServer\<lparr>ln := Some ''[::]:5269'', listening := 1\<rparr>))
       = [(''c1'', InStreamPtr 0)]
   \<and> snd (stop (Some ''close: bad file descriptor'')
        (startInStream ''c1'' (emptyServer\<lparr>ln := Some ''[::]:5269'', listening := 1\<rparr>)))
       = Returned (Some ''close: bad file descriptor'')
   \<and> inConns (fst (stop (Some ''close: bad file descriptor'')
        (startInStream ''c1'' (emptyServer\<lparr>ln := Some ''[::]:5269'', listening := 1\<rparr>))))
       = [(''c1'', InStreamPtr 0)]
   \<and> EvDisconnect 0 ErrSystemShutdown \<notin> set (trace (fst (stop (Some ''close: bad file descriptor'')
        (startInStream ''c1'' (emptyServer\<lparr>ln := Some ''[::]:5269'', listening := 1\<rparr>)))))"
  by (simp add: stop_def startInStream_def newInStream_def registerInStream_def Store_def
      emptyServer_def)

text \<open>
  C2, amended. When \<^verbatim>\<open>stop\<close> wins the flag, the close returns nil, the outbound
  registry is empty and every inbound entry is as \<^verbatim>\<open>startInStream\<close> leaves it, \<^verbatim>\<open>stop\<close>
  returns nil after disconnecting every inbound handle once, in registry order, with the
  system-shutdown reason; each disconnect runs the stream's callback, which unregisters it,
  so the inbound registry is empty at the end; the two summary lines report 0 and the
  number of inbound handles.
\<close>

theorem stop_disconnects_inbound:
  assumes "listening s = 1" and "ln s = Some l" and "outConns s = []" and "inRegistered s"
  shows "snd (stop None s) = Returned None
       \<and> inConns (fst (stop None s)) = []
       \<and> outConns (fst (stop None s)) = []
       \<and> trace (fst (stop None s)) =
           trace s @ [EvClose, EvLog (LogClosedOut (cfgID s) 0)]
             @ concat (map shutdownEvents (inConns s))
             @ [EvLog (LogClosedIn (cfgID s) (length (inConns s)))]"
proof -
  let ?s4 = "s\<lparr>listening := 0, trace := trace s @ [EvClose, EvLog (LogClosedOut (cfgID s) 0)]\<rparr>"
  let ?r = "rangeDisconnect inConns (map fst (inConns s)) ?s4 0"
  have ok4: "list_all (inEntryOK ?s4) (inConns s)"
    using assms(4) by (simp add: inRegistered_def inEntryOK_inStreams [of ?s4 s])
  have dist: "distinct (map fst (inConns s))"
    using assms(4) by (simp add: inRegistered_def)
  have sweep: "snd ?r = Some (length (inConns s)) \<and> inConns (fst ?r) = []
      \<and> trace (fst ?r) = trace ?s4 @ concat (map shutdownEvents (inConns s))
      \<and> outConns (fst ?r) = outConns ?s4 \<and> cfgID (fst ?r) = cfgID ?s4"
    using rangeDisconnect_inConns [of ?s4 "inConns s", OF _ dist ok4, of 0] by simp
  obtain s5 where r: "?r = (s5, Some (length (inConns s)))"
    using sweep by (cases ?r) auto
  have "stop None s =
      (s5\<lparr>trace := trace s5 @ [EvLog (LogClosedIn (cfgID s5) (length (inConns s)))]\<rparr>, Returned None)"
    using assms(1-3) r by (simp add: stop_def)
  with sweep r assms(3) show ?thesis by simp
qed

theorem stop_disconnects_inbound_witness:
  "snd (stop None (startInStream ''c2'' (startInStream ''c1''
          (emptyServer\<lparr>ln := Some ''[::]:5269'', listening := 1\<rparr>)))) = Returned None
   \<and> inConns (fst (stop None (startInStream ''c2'' (startInStream ''c1''
          (emptyServer\<lparr>ln := Some ''[::]:5269'', listening := 1\<rparr>))))) = []
   \<and> trace (fst (stop None (startInStream ''c2'' (startInStream ''c1''
          (emptyServer\<lparr>ln := Some ''[::]:5269'', listening := 1\<rparr>))))) =
       [EvLog (LogRegisteredIn ''c1''), EvLog (LogRegisteredIn ''c2''), EvClose,
        EvLog (LogClosedOut ''s2s'' 0),
        EvDisconnect 0 ''system-shutdown'', EvLog (LogUnregisteredIn ''c1''),
        EvDisconnect 1 ''system-shutdown'', EvLog (LogUnregisteredIn ''c2''),
        EvLog (LogClosedIn ''s2s'' 2)]"
  using stop_disconnects_inbound
    [of "startInStream ''c2'' (startInStream ''c1''
          (emptyServer\<lparr>ln := Some ''[::]:5269'', listening := 1\<rparr>))" "''[::]:5269''"]
  by (simp add: startInStream_def newInStream_def registerInStream_def Store_def emptyServer_def
      inRegistered_def inEntryOK_def shutdownEvents_def ErrSystemShutdown_def)

text \<open>
  C4. \<^verbatim>\<open>stop\<close> is idempotent. Whatever the first call did and however it ended, a second
  call finds the flag no longer 1, changes nothing (no close, no registry operation, no
  line in the trace) and returns nil; two calls leave the server as one call does. In any
  number of \<^verbatim>\<open>stop\<close> calls the listener is closed at most once.
\<close>

theorem stop_idempotent:
  "stop c2 (fst (stop c1 s)) = (fst (stop c1 s), Returned None)
   \<and> stops [c1, c2] s = stops [c1] s
   \<and> count_list (trace (stops cs s)) EvClose \<le> Suc (count_list (trace s) EvClose)"
proof -
  have one: "stop c2 (fst (stop c1 s)) = (fst (stop c1 s), Returned None)"
    by (rule stop_not_listening) (rule stop_listening)
  have two: "count_list (trace (stops cs s)) EvClose \<le> Suc (count_list (trace s) EvClose)"
  proof (cases cs)
    case Nil
    then show ?thesis by simp
  next
    case (Cons c cs')
    then show ?thesis
      by (simp add: stops_stopped [OF stop_listening] stop_closes)
  qed
  from one two show ?thesis by simp
qed

theorem stop_idempotent_witness:
  "stop None (fst (stop None (emptyServer\<lparr>ln := Some ''[::]:5269'', listening := 1\<rparr>)))
     = (fst (stop None (emptyServer\<lparr>ln := Some ''[::]:5269'', listening := 1\<rparr>)), Returned None)
   \<and> count_list (trace (stops [None, None, None]
         (emptyServer\<lparr>ln := Some ''[::]:5269'', listening := 1\<rparr>))) EvClose = 1"
  using stop_idempotent [of None None "emptyServer\<lparr>ln := Some ''[::]:5269'', listening := 1\<rparr>" "[]"]
  by (simp add: stop_def emptyServer_def)

subsection \<open>The accept loop\<close>

text \<open>
  C5. The loop runs exactly while the flag reads 1. Started with the flag not 1 it returns
  at once without calling \<^verbatim>\<open>Accept\<close>. With the flag 1 and no \<^verbatim>\<open>stop\<close>, it makes one
  more call of \<^verbatim>\<open>Accept\<close> for every answer it gets and is waiting in \<^verbatim>\<open>Accept\<close> again,
  the flag still 1. When \<^verbatim>\<open>stop\<close> is called while it waits, it ends as soon as that
  \<^verbatim>\<open>Accept\<close> answers (it returns nil, or the process ended with the panic of \<^verbatim>\<open>stop\<close>):
  no further call of \<^verbatim>\<open>Accept\<close> is made and nothing of the rest of the script is
  read. After a \<^verbatim>\<open>stop\<close> the flag is not 1, and no later \<^verbatim>\<open>stop\<close> finds it 1: the
  transition from 1 to 0 happens at most once.
\<close>

theorem acceptLoop_runs_iff_listening:
  "(listening s \<noteq> 1 \<longrightarrow> acceptLoop script s = (s, Returned None))
   \<and> (listening s = 1 \<longrightarrow>
        snd (acceptLoop (map AcceptReturns rs) s) = Blocked
        \<and> listening (fst (acceptLoop (map AcceptReturns rs) s)) = 1
        \<and> count_list (trace (fst (acceptLoop (map AcceptReturns rs) s))) EvAccept
            = count_list (trace s) EvAccept + Suc (length rs))
   \<and> (listening s = 1 \<longrightarrow>
        acceptLoop (map AcceptReturns rs @ StopCalled c # AcceptReturns r # rest) s
          = acceptLoop (map AcceptReturns rs @ [StopCalled c, AcceptReturns r]) s
        \<and> snd (acceptLoop (map AcceptReturns rs @ StopCalled c # AcceptReturns r # rest) s) \<noteq> Blocked
        \<and> count_list (trace (fst (acceptLoop
              (map AcceptReturns rs @ StopCalled c # AcceptReturns r # rest) s))) EvAccept
            = count_list (trace s) EvAccept + Suc (length rs))
   \<and> acceptLoop script (fst (stop c s)) = (fst (stop c s), Returned None)
   \<and> listening (stops cs (fst (stop c s))) \<noteq> 1"
proof (intro conjI impI)
  assume "listening s \<noteq> 1"
  then show "acceptLoop script s = (s, Returned None)" by (rule acceptLoop_not_listening)
next
  assume l: "listening s = 1"
  from acceptLoop_no_stop [OF l, of rs]
  show "snd (acceptLoop (map AcceptReturns rs) s) = Blocked"
    and "listening (fst (acceptLoop (map AcceptReturns rs) s)) = 1"
    and "count_list (trace (fst (acceptLoop (map AcceptReturns rs) s))) EvAccept
            = count_list (trace s) EvAccept + Suc (length rs)"
    by simp_all
next
  assume l: "listening s = 1"
  from acceptLoop_append_accepts [OF l, of rs] obtain s' where s': "listening s' = 1"
    "count_list (trace s') EvAccept = count_list (trace s) EvAccept + length rs"
    "\<And>script. acceptLoop (map AcceptReturns rs @ script) s = acceptLoop script s'"
    by blast
  note R = acceptLoop_stop_then_return [OF s'(1), of c r rest]
  show "acceptLoop (map AcceptReturns rs @ StopCalled c # AcceptReturns r # rest) s
          = acceptLoop (map AcceptReturns rs @ [StopCalled c, AcceptReturns r]) s"
    unfolding s'(3) using R by blast
  show "snd (acceptLoop (map AcceptReturns rs @ StopCalled c # AcceptReturns r # rest) s) \<noteq> Blocked"
    unfolding s'(3) using R by blast
  show "count_list (trace (fst (acceptLoop
              (map AcceptReturns rs @ StopCalled c # AcceptReturns r # rest) s))) EvAccept
            = count_list (trace s) EvAccept + Suc (length rs)"
    unfolding s'(3) using R [THEN conjunct2, THEN conjunct2] s'(2) by simp
next
  show "acceptLoop script (fst (stop c s)) = (fst (stop c s), Returned None)"
    by (rule acceptLoop_not_listening) (rule stop_listening)
next
  show "listening (stops cs (fst (stop c s))) \<noteq> 1"
    by (simp add: stops_stopped [OF stop_listening] stop_listening)
qed

theorem acceptLoop_runs_iff_listening_witness:
  "snd (acceptLoop [AcceptReturns (Inr ''c1'')]
          (emptyServer\<lparr>ln := Some ''[::]:5269'', listening := 1\<rparr>)) = Blocked
   \<and> snd (acceptLoop [AcceptReturns (Inr ''c1''), StopCalled None,
            AcceptReturns (Inl ''use of closed network connection''), AcceptReturns (Inr ''c2'')]
          (emptyServer\<lparr>ln := Some ''[::]:5269'', listening := 1\<rparr>)) = Returned None
   \<and> trace (fst (acceptLoop [AcceptReturns (Inr ''c1''), StopCalled None,
            AcceptReturns (Inl ''use of closed network connection''), AcceptReturns (Inr ''c2'')]
          (emptyServer\<lparr>ln := Some ''[::]:5269'', listening := 1\<rparr>)))
       = [EvAccept, EvLog (LogRegisteredIn ''c1''), EvAccept, EvClose,
          EvLog (LogClosedOut ''s2s'' 0), EvDisconnect 0 ''system-shutdown'',
          EvLog (LogUnregisteredIn ''c1''), EvLog (LogClosedIn ''s2s'' 1)]
   \<and> acceptLoop [AcceptReturns (Inr ''c1'')] emptyServer = (emptyServer, Returned None)"
  using acceptLoop_runs_iff_listening
    [of "emptyServer\<lparr>ln := Some ''[::]:5269'', listening := 1\<rparr>" "[]" "[Inr ''c1'']" None
        "Inl ''use of closed network connection''" "[AcceptReturns (Inr ''c2'')]" "[]"]
  by (simp add: acceptLoop.simps stop_def startInStream_def newInStream_def registerInStream_def
      Store_def Disconnect_def unregisterInStream_def Delete_def ErrSystemShutdown_def
      emptyServer_def Let_def)

text \<open>
  C7, as the claim states it, fails: with the flag 1 and \<^verbatim>\<open>Accept\<close> failing twice in a
  row, the loop calls \<^verbatim>\<open>Accept\<close> three times back to back; it writes no log line and
  nothing stands between the calls.
\<close>

theorem acceptLoop_error_policy_counterexample:
  "listening (emptyServer\<lparr>ln := Some ''[::]:5269'', listening := 1\<rparr>) = 1
   \<and> acceptLoop [AcceptReturns (Inl ''accept: too many open files''),
                 AcceptReturns (Inl ''accept: too many open files'')]
        (emptyServer\<lparr>ln := Some ''[::]:5269'', listening := 1\<rparr>)
      = (emptyServer\<lparr>ln := Some ''[::]:5269'', listening := 1,
           trace := [EvAccept, EvAccept, EvAccept]\<rparr>, Blocked)
   \<and> EvLog (LogError ''accept: too many open files'') \<notin> set (trace (fst (acceptLoop
        [AcceptReturns (Inl ''accept: too many open files''),
         AcceptReturns (Inl ''accept: too many open files'')]
        (emptyServer\<lparr>ln := Some ''[::]:5269'', listening := 1\<rparr>))))"
  by (simp add: acceptLoop.simps emptyServer_def)

text \<open>
  C7, amended. On an error of \<^verbatim>\<open>Accept\<close> the loop does not look at the error, logs
  nothing and waits for nothing: it evaluates the flag again and, while the flag is 1,
  calls \<^verbatim>\<open>Accept\<close> again at once, so that n failures in a row are n further calls and no
  other effect. It returns nil once \<^verbatim>\<open>stop\<close> has set the flag to 0 (and has not
  panicked), whatever the error is.
\<close>

theorem acceptLoop_accept_error:
  "(listening s = 1 \<longrightarrow>
      acceptLoop (replicate n (AcceptReturns (Inl err)) @ script) s
        = acceptLoop script (s\<lparr>trace := trace s @ replicate n EvAccept\<rparr>))
   \<and> (listening s = 1 \<and> snd (stop c (s\<lparr>trace := trace s @ [EvAccept]\<rparr>)) \<noteq> Panicked \<longrightarrow>
        acceptLoop (StopCalled c # AcceptReturns (Inl err) # script) s
          = (fst (stop c (s\<lparr>trace := trace s @ [EvAccept]\<rparr>)), Returned None))"
proof (intro conjI impI)
  assume "listening s = 1"
  then show "acceptLoop (replicate n (AcceptReturns (Inl err)) @ script) s
        = acceptLoop script (s\<lparr>trace := trace s @ replicate n EvAccept\<rparr>)"
    by (rule acceptLoop_errors)
next
  assume a: "listening s = 1 \<and> snd (stop c (s\<lparr>trace := trace s @ [EvAccept]\<rparr>)) \<noteq> Panicked"
  let ?s0 = "s\<lparr>trace := trace s @ [EvAccept]\<rparr>"
  obtain s1 o1 where st: "stop c ?s0 = (s1, o1)" by (cases "stop c ?s0")
  have l1: "listening s1 \<noteq> 1" using stop_listening [of c ?s0] st by simp
  from a st have "o1 \<noteq> Panicked" by simp
  then show "acceptLoop (StopCalled c # AcceptReturns (Inl err) # script) s
          = (fst (stop c ?s0), Returned None)"
    using a st l1 by (cases o1) (simp_all add: acceptLoop_listening acceptLoop_not_listening)
qed

theorem acceptLoop_accept_error_witness:
  "acceptLoop (replicate 3 (AcceptReturns (Inl ''accept: too many open files'')))
      (emptyServer\<lparr>ln := Some ''[::]:5269'', listening := 1\<rparr>)
     = (emptyServer\<lparr>ln := Some ''[::]:5269'', listening := 1,
          trace := [EvAccept, EvAccept, EvAccept, EvAccept]\<rparr>, Blocked)
   \<and> acceptLoop [StopCalled None, AcceptReturns (Inl ''accept: too many open files'')]
      (emptyServer\<lparr>ln := Some ''[::]:5269'', listening := 1\<rparr>)
     = (emptyServer\<lparr>ln := Some ''[::]:5269'', listening := 0,
          trace := [EvAccept, EvClose, EvLog (LogClosedOut ''s2s'' 0), EvLog (LogClosedIn ''s2s'' 0)]\<rparr>,
        Returned None)"
  using acceptLoop_accept_error [of "emptyServer\<lparr>ln := Some ''[::]:5269'', listening := 1\<rparr>"
      3 "''accept: too many open files''" "[]" None]
  by (simp add: acceptLoop.simps stop_def emptyServer_def numeral_3_eq_3)

end
